theory Spec2Isabelle
  imports Main
begin

section \<open>Data model (Frame.h, Switch.h)\<close>

text \<open>
  MAC addresses are \<^verbatim>\<open>std::string\<close> values; the code compares them with the string
  equality of the standard library (byte by byte) and uses them as keys of the table.
\<close>

record Frame =
  sourceMAC :: string
  destMAC :: string
  etherType :: string
  payload :: string

text \<open>
  A \<^verbatim>\<open>std::chrono::steady_clock::time_point\<close> is a count of clock ticks since the clock's
  epoch. The tick period is a constant of the standard library: one nanosecond in
  libstdc++, libc++ and the MSVC library. Tick counts are 64-bit in these libraries and
  are modelled as mathematical integers (a nanosecond count overflows after 292 years).
\<close>

type_synonym time_point = int

definition ticksPerSecond :: int where
  "ticksPerSecond = 1000000000"

text \<open>
  The fields of type \<^verbatim>\<open>int\<close> (ports, timeout, counters) are modelled as mathematical
  integers: the code only compares them and adds one to them, and signed overflow of the
  increment is undefined behaviour in C++, not a wrap-around.
\<close>

record MACTableEntry =
  port :: int
  timestamp :: time_point

record Switch =
  macTable :: "string \<rightharpoonup> MACTableEntry"
  numPorts :: int
  agingTimeout :: int
  currentCycle :: int
  framesProcessed :: int
  learningEvents :: int
  forwardingEvents :: int
  floodingEvents :: int

text \<open>The constructor \<^verbatim>\<open>Switch::Switch(int ports, int timeout)\<close>.\<close>

definition newSwitch :: "int \<Rightarrow> int \<Rightarrow> Switch" where
  "newSwitch ports timeout =
     \<lparr>macTable = Map.empty, numPorts = ports, agingTimeout = timeout, currentCycle = 0,
      framesProcessed = 0, learningEvents = 0, forwardingEvents = 0, floodingEvents = 0\<rparr>"

section \<open>What a call reports\<close>

text \<open>
  \<^verbatim>\<open>processFrame\<close> returns \<^verbatim>\<open>void\<close>; what it decides is visible in the branch it takes
  and in the line it prints there. The model returns that branch as a value. The learning
  phase has three branches (LEARNING, UPDATE with the old port, REFRESH), the forwarding
  phase four (BROADCAST and UNKNOWN UNICAST, each with the list of ports printed after
  "Flooding ports:", FILTERING, FORWARDING with the output port).
\<close>

datatype LearnOutcome = New | Moved int | Refreshed

datatype Decision =
    BroadcastFlood int "int list"
  | Filtering int
  | Forwarding int
  | UnknownUnicastFlood int "int list"

text \<open>
  The three actions of the specification, and the action each branch of the code stands
  for: both flooding branches flood to every port but the incoming one, the filtering
  branch drops the frame, the forwarding branch delivers it to one port.
\<close>

datatype Action = Deliver int | Flood int | Drop

fun action :: "Decision \<Rightarrow> Action" where
  "action (BroadcastFlood p ps) = Flood p"
| "action (Filtering p) = Drop"
| "action (Forwarding q) = Deliver q"
| "action (UnknownUnicastFlood p ps) = Flood p"

fun floodedPorts :: "Decision \<Rightarrow> int list" where
  "floodedPorts (BroadcastFlood p ps) = ps"
| "floodedPorts (Filtering p) = []"
| "floodedPorts (Forwarding q) = []"
| "floodedPorts (UnknownUnicastFlood p ps) = ps"

section \<open>Switch::processFrame (Switch.cpp)\<close>

text \<open>
  The loop \<^verbatim>\<open>for (int i = 1; i <= numPorts; i++) if (i != incomingPort) print i\<close>,
  started at \<open>i\<close>: the ports it prints, in the order it prints them.
\<close>

function floodLoop :: "int \<Rightarrow> int \<Rightarrow> int \<Rightarrow> int list" where
  "floodLoop i n incomingPort =
     (if i \<le> n
      then (if i \<noteq> incomingPort then i # floodLoop (i + 1) n incomingPort
            else floodLoop (i + 1) n incomingPort)
      else [])"
  by pat_completeness auto
termination
  by (relation "measure (\<lambda>(i, n, p). nat (n + 1 - i))") auto

declare floodLoop.simps [simp del]

definition floodingPorts :: "int \<Rightarrow> int \<Rightarrow> int list" where
  "floodingPorts n incomingPort = floodLoop 1 n incomingPort"

text \<open>
  Step 1, the learning phase. The clock is read once in each branch
  (\<^verbatim>\<open>std::chrono::steady_clock::now()\<close>, in the constructor of \<^verbatim>\<open>MACTableEntry\<close> or in the
  assignment to \<^verbatim>\<open>timestamp\<close>); \<open>now\<close> is the value the clock returns during the call.
\<close>

definition learningPhase :: "string \<Rightarrow> int \<Rightarrow> time_point \<Rightarrow> Switch \<Rightarrow> LearnOutcome \<times> Switch" where
  "learningPhase src incomingPort now s =
     (case macTable s src of
        None \<Rightarrow>
          (New, s\<lparr>macTable := (macTable s)(src \<mapsto> \<lparr>port = incomingPort, timestamp = now\<rparr>),
                  learningEvents := learningEvents s + 1\<rparr>)
      | Some e \<Rightarrow>
          if port e \<noteq> incomingPort
          then (Moved (port e),
                s\<lparr>macTable := (macTable s)(src \<mapsto> e\<lparr>port := incomingPort, timestamp := now\<rparr>)\<rparr>)
          else (Refreshed, s\<lparr>macTable := (macTable s)(src \<mapsto> e\<lparr>timestamp := now\<rparr>)\<rparr>))"

text \<open>Step 2, the forwarding decision: the broadcast test first, then the table.\<close>

definition forwardingDecision :: "string \<Rightarrow> int \<Rightarrow> Switch \<Rightarrow> Decision \<times> Switch" where
  "forwardingDecision dest incomingPort s =
     (if dest = ''FF:FF:FF:FF:FF:FF''
      then (BroadcastFlood incomingPort (floodingPorts (numPorts s) incomingPort),
            s\<lparr>floodingEvents := floodingEvents s + 1\<rparr>)
      else (case macTable s dest of
              Some e \<Rightarrow>
                (let outPort = port e in
                 if outPort = incomingPort then (Filtering incomingPort, s)
                 else (Forwarding outPort, s\<lparr>forwardingEvents := forwardingEvents s + 1\<rparr>))
            | None \<Rightarrow>
                (UnknownUnicastFlood incomingPort (floodingPorts (numPorts s) incomingPort),
                 s\<lparr>floodingEvents := floodingEvents s + 1\<rparr>)))"

text \<open>
  \<^verbatim>\<open>void Switch::processFrame(const std::string& sourceMAC, const std::string& destMAC,
  int incomingPort)\<close>: count the frame, learn, decide.
\<close>

definition processFrame ::
  "string \<Rightarrow> string \<Rightarrow> int \<Rightarrow> time_point \<Rightarrow> Switch \<Rightarrow> (LearnOutcome \<times> Decision) \<times> Switch" where
  "processFrame src dest incomingPort now s =
     (let s1 = s\<lparr>framesProcessed := framesProcessed s + 1\<rparr>;
          (lo, s2) = learningPhase src incomingPort now s1;
          (d, s3) = forwardingDecision dest incomingPort s2
      in ((lo, d), s3))"

text \<open>
  \<^verbatim>\<open>void Switch::processFrame(const Frame& frame, int incomingPort)\<close>, the overload that
  takes a frame.
\<close>

definition processFrameF ::
  "Frame \<Rightarrow> int \<Rightarrow> time_point \<Rightarrow> Switch \<Rightarrow> (LearnOutcome \<times> Decision) \<times> Switch" where
  "processFrameF frame incomingPort now s =
     processFrame (sourceMAC frame) (destMAC frame) incomingPort now s"

section \<open>Maintenance calls (Switch.cpp)\<close>

text \<open>
  \<^verbatim>\<open>std::chrono::duration_cast<std::chrono::seconds>(now - timestamp).count()\<close>: the
  elapsed ticks converted to whole seconds, truncated toward zero.
\<close>

definition elapsedSeconds :: "time_point \<Rightarrow> time_point \<Rightarrow> int" where
  "elapsedSeconds now ts =
     (let d = now - ts in
      if 0 \<le> d then d div ticksPerSecond else - ((- d) div ticksPerSecond))"

text \<open>
  \<^verbatim>\<open>Switch::cleanupTable\<close>: one reading \<open>now\<close> of the clock, then a pass over the table
  that erases each entry whose elapsed seconds exceed the timeout. The entries are tested
  independently of each other and of the iteration order of the \<^verbatim>\<open>unordered_map\<close>.
\<close>

definition cleanupTable :: "time_point \<Rightarrow> Switch \<Rightarrow> Switch" where
  "cleanupTable now s =
     (if agingTimeout s \<le> 0 then s
      else s\<lparr>macTable :=
               (\<lambda>a. case macTable s a of
                       None \<Rightarrow> None
                     | Some e \<Rightarrow>
                         if elapsedSeconds now (timestamp e) > agingTimeout s then None
                         else Some e)\<rparr>)"

definition clearMACTable :: "Switch \<Rightarrow> Switch" where
  "clearMACTable s = s\<lparr>macTable := Map.empty\<rparr>"

definition advanceCycle :: "Switch \<Rightarrow> Switch" where
  "advanceCycle s = s\<lparr>currentCycle := currentCycle s + 1\<rparr>"

definition isLearned :: "Switch \<Rightarrow> string \<Rightarrow> bool" where
  "isLearned s mac = (macTable s mac \<noteq> None)"

text \<open>The port the table holds for an address, if any.\<close>

definition portOf :: "Switch \<Rightarrow> string \<Rightarrow> int option" where
  "portOf s mac = map_option port (macTable s mac)"

section \<open>Sequences of calls\<close>

text \<open>
  The state-changing calls of the public interface. None of them takes a time argument;
  a run pairs each call with the value the steady clock returns while the call executes.
\<close>

datatype Call =
    ProcessFrame string string int
  | ProcessFrameF Frame int
  | CleanupTable
  | ClearMACTable
  | AdvanceCycle

fun step :: "Call \<Rightarrow> time_point \<Rightarrow> Switch \<Rightarrow> (LearnOutcome \<times> Decision) option \<times> Switch" where
  "step (ProcessFrame src dest p) now s =
     (let (r, s') = processFrame src dest p now s in (Some r, s'))"
| "step (ProcessFrameF f p) now s =
     (let (r, s') = processFrameF f p now s in (Some r, s'))"
| "step CleanupTable now s = (None, cleanupTable now s)"
| "step ClearMACTable now s = (None, clearMACTable s)"
| "step AdvanceCycle now s = (None, advanceCycle s)"

fun run :: "(Call \<times> time_point) list \<Rightarrow> Switch \<Rightarrow> (LearnOutcome \<times> Decision) option list \<times> Switch" where
  "run [] s = ([], s)"
| "run ((c, now) # cs) s =
     (let (r, s') = step c now s; (rs, s'') = run cs s' in (r # rs, s''))"

text \<open>The four statistics counters.\<close>

definition counters :: "Switch \<Rightarrow> int \<times> int \<times> int \<times> int" where
  "counters s = (framesProcessed s, learningEvents s, forwardingEvents s, floodingEvents s)"

section \<open>Notions used to state the properties\<close>

text \<open>
  Two textual addresses that differ only in the case of their hexadecimal digits: the
  relation under which the specification identifies addresses. The code has no such
  function; it is defined here to state that property.
\<close>

definition upperHex :: "char \<Rightarrow> char" where
  "upperHex c =
     (if c = CHR ''a'' then CHR ''A'' else if c = CHR ''b'' then CHR ''B''
      else if c = CHR ''c'' then CHR ''C'' else if c = CHR ''d'' then CHR ''D''
      else if c = CHR ''e'' then CHR ''E'' else if c = CHR ''f'' then CHR ''F'' else c)"

definition sameUpToCase :: "string \<Rightarrow> string \<Rightarrow> bool" where
  "sameUpToCase a b = (map upperHex a = map upperHex b)"

text \<open>
  What a state holds apart from the timestamps: the port of every address, the counters
  and the configuration. Two states agree up to time when these parts are equal.
\<close>

definition agreeUpToTime :: "Switch \<Rightarrow> Switch \<Rightarrow> bool" where
  "agreeUpToTime s s' =
     (portOf s = portOf s' \<and> counters s = counters s' \<and> numPorts s = numPorts s'
      \<and> agingTimeout s = agingTimeout s' \<and> currentCycle s = currentCycle s')"

section \<open>Basic facts\<close>

lemma floodLoop_filter: "floodLoop i n p = filter (\<lambda>j. j \<noteq> p) [i..n]"
proof (induction i n p rule: floodLoop.induct)
  case (1 i n p)
  show ?case
  proof (cases "i \<le> n")
    case True
    then have "[i..n] = i # [i + 1..n]" by (simp add: upto_rec1)
    with True "1" show ?thesis by (simp add: floodLoop.simps [of i n p])
  next
    case False
    then show ?thesis by (simp add: floodLoop.simps [of i n p])
  qed
qed

lemma floodingPorts_filter: "floodingPorts n p = filter (\<lambda>j. j \<noteq> p) [1..n]"
  by (simp add: floodingPorts_def floodLoop_filter)

lemma learningPhase_table:
  "macTable (snd (learningPhase src p now s)) a =
     (if a = src then Some \<lparr>port = p, timestamp = now\<rparr> else macTable s a)"
  by (cases "macTable s src") (auto simp: learningPhase_def)

lemma learningPhase_other:
  "numPorts (snd (learningPhase src p now s)) = numPorts s"
  "agingTimeout (snd (learningPhase src p now s)) = agingTimeout s"
  "currentCycle (snd (learningPhase src p now s)) = currentCycle s"
  "framesProcessed (snd (learningPhase src p now s)) = framesProcessed s"
  "forwardingEvents (snd (learningPhase src p now s)) = forwardingEvents s"
  "floodingEvents (snd (learningPhase src p now s)) = floodingEvents s"
  by (cases "macTable s src"; simp add: learningPhase_def)+

lemma learningPhase_learningEvents:
  "learningEvents (snd (learningPhase src p now s)) =
     (if macTable s src = None then learningEvents s + 1 else learningEvents s)"
  by (cases "macTable s src") (auto simp: learningPhase_def)

lemma learningPhase_outcome:
  "fst (learningPhase src p now s) =
     (case macTable s src of None \<Rightarrow> New
      | Some e \<Rightarrow> if port e \<noteq> p then Moved (port e) else Refreshed)"
  by (cases "macTable s src") (auto simp: learningPhase_def)

lemma forwardingDecision_other:
  "macTable (snd (forwardingDecision dest p s)) = macTable s"
  "numPorts (snd (forwardingDecision dest p s)) = numPorts s"
  "agingTimeout (snd (forwardingDecision dest p s)) = agingTimeout s"
  "currentCycle (snd (forwardingDecision dest p s)) = currentCycle s"
  "framesProcessed (snd (forwardingDecision dest p s)) = framesProcessed s"
  "learningEvents (snd (forwardingDecision dest p s)) = learningEvents s"
  by (cases "macTable s dest"; simp add: forwardingDecision_def Let_def)+

lemma processFrame_split:
  "processFrame src dest p now s =
     ((fst (learningPhase src p now (s\<lparr>framesProcessed := framesProcessed s + 1\<rparr>)),
       fst (forwardingDecision dest p
              (snd (learningPhase src p now (s\<lparr>framesProcessed := framesProcessed s + 1\<rparr>))))),
      snd (forwardingDecision dest p
              (snd (learningPhase src p now (s\<lparr>framesProcessed := framesProcessed s + 1\<rparr>)))))"
  by (simp add: processFrame_def Let_def split_beta)

lemma processFrame_table:
  "macTable (snd (processFrame src dest p now s)) a =
     (if a = src then Some \<lparr>port = p, timestamp = now\<rparr> else macTable s a)"
  by (simp add: processFrame_split forwardingDecision_other learningPhase_table)

lemma processFrame_config:
  "numPorts (snd (processFrame src dest p now s)) = numPorts s"
  "agingTimeout (snd (processFrame src dest p now s)) = agingTimeout s"
  "currentCycle (snd (processFrame src dest p now s)) = currentCycle s"
  by (simp_all add: processFrame_split forwardingDecision_other learningPhase_other)

lemma floodingPorts_sorted: "sorted (floodingPorts n p)"
  by (simp add: floodingPorts_filter sorted_wrt_filter)

lemma floodingPorts_distinct: "distinct (floodingPorts n p)"
  by (simp add: floodingPorts_filter)

lemma floodingPorts_set: "set (floodingPorts n p) = {1..n} - {p}"
  by (auto simp: floodingPorts_filter)

lemma forwardingDecision_flood_iff:
  "(action (fst (forwardingDecision dest p s)) = Flood p) =
     (dest = ''FF:FF:FF:FF:FF:FF'' \<or> macTable s dest = None)"
  by (cases "macTable s dest") (auto simp: forwardingDecision_def Let_def)

lemma forwardingDecision_flooded:
  "action (fst (forwardingDecision dest p s)) = Flood q \<Longrightarrow>
     floodedPorts (fst (forwardingDecision dest p s)) = floodingPorts (numPorts s) p"
  by (cases "macTable s dest") (auto simp: forwardingDecision_def Let_def split: if_splits)

lemma forwardingDecision_broadcast:
  "fst (forwardingDecision ''FF:FF:FF:FF:FF:FF'' p s) =
     BroadcastFlood p (floodingPorts (numPorts s) p)"
  by (simp add: forwardingDecision_def)

lemma forwardingDecision_is_broadcast:
  "(\<exists>ps. fst (forwardingDecision dest p s) = BroadcastFlood p ps) = (dest = ''FF:FF:FF:FF:FF:FF'')"
  by (cases "macTable s dest") (auto simp: forwardingDecision_def Let_def)

section \<open>The forwarding decision\<close>

text \<open>
  C1 (as stated, with the table of the state the call starts from): the decision is a
  flood exactly when the destination is the broadcast address or has no entry. A frame
  addressed to its own source refutes it: on the empty table the destination has no
  entry and is not the broadcast address, yet the frame is filtered, because its source
  has been learned on the incoming port before the destination is looked up.
\<close>

theorem C1_flood_pre_table_counterexample:
  "\<not> ((action (snd (fst (processFrame ''AA'' ''AA'' 1 0 (newSwitch 8 300)))) = Flood 1) =
        (''AA'' = ''FF:FF:FF:FF:FF:FF'' \<or> macTable (newSwitch 8 300) ''AA'' = None))"
  by (simp add: processFrame_def learningPhase_def forwardingDecision_def newSwitch_def)

text \<open>
  C1 (amended): for every frame, incoming port, clock reading and switch state, the
  decision is Flood(excludePort = inPort) exactly when the destination is the broadcast
  address or is absent from the table as it stands after the learning step of the same
  call, that is, absent from the table before the call and different from the frame's
  source address. A broadcast destination gives the broadcast branch whatever the table
  holds. Whenever the decision is a flood, the ports listed are the ports of
  [1, numPorts] other than inPort, in ascending order without repetition.
\<close>

theorem C1_flood_iff:
  fixes src dest :: string and inPort :: int and now :: time_point and s :: Switch
  defines "r \<equiv> processFrame src dest inPort now s"
  shows "((action (snd (fst r)) = Flood inPort) =
            (dest = ''FF:FF:FF:FF:FF:FF'' \<or> macTable (snd r) dest = None))
       \<and> ((action (snd (fst r)) = Flood inPort) =
            (dest = ''FF:FF:FF:FF:FF:FF'' \<or> (dest \<noteq> src \<and> macTable s dest = None)))
       \<and> (dest = ''FF:FF:FF:FF:FF:FF'' \<longrightarrow>
            snd (fst r) = BroadcastFlood inPort (floodingPorts (numPorts s) inPort))
       \<and> (action (snd (fst r)) = Flood inPort \<longrightarrow>
            floodedPorts (snd (fst r)) = filter (\<lambda>j. j \<noteq> inPort) [1..numPorts s]
            \<and> sorted (floodedPorts (snd (fst r))) \<and> distinct (floodedPorts (snd (fst r)))
            \<and> set (floodedPorts (snd (fst r))) = {1..numPorts s} - {inPort})"
proof -
  let ?s1 = "snd (learningPhase src inPort now (s\<lparr>framesProcessed := framesProcessed s + 1\<rparr>))"
  have d: "snd (fst r) = fst (forwardingDecision dest inPort ?s1)"
    by (simp add: r_def processFrame_split)
  have t: "macTable (snd r) dest = macTable ?s1 dest"
    by (simp add: r_def processFrame_split forwardingDecision_other)
  have t1: "macTable ?s1 dest = (if dest = src then Some \<lparr>port = inPort, timestamp = now\<rparr> else macTable s dest)"
    by (simp add: learningPhase_table)
  have n: "numPorts ?s1 = numPorts s"
    by (simp add: learningPhase_other)
  have a: "(action (snd (fst r)) = Flood inPort) =
            (dest = ''FF:FF:FF:FF:FF:FF'' \<or> macTable (snd r) dest = None)"
    by (simp only: d t forwardingDecision_flood_iff)
  have b: "(action (snd (fst r)) = Flood inPort) =
            (dest = ''FF:FF:FF:FF:FF:FF'' \<or> (dest \<noteq> src \<and> macTable s dest = None))"
    unfolding a t t1 by auto
  have c: "dest = ''FF:FF:FF:FF:FF:FF'' \<longrightarrow>
            snd (fst r) = BroadcastFlood inPort (floodingPorts (numPorts s) inPort)"
    using forwardingDecision_broadcast [of inPort ?s1] by (simp add: d n)
  have e: "action (snd (fst r)) = Flood inPort \<longrightarrow>
            floodedPorts (snd (fst r)) = floodingPorts (numPorts s) inPort"
    using forwardingDecision_flooded [of dest inPort ?s1 inPort] by (simp add: d n)
  have f: "action (snd (fst r)) = Flood inPort \<longrightarrow>
            floodedPorts (snd (fst r)) = filter (\<lambda>j. j \<noteq> inPort) [1..numPorts s]
            \<and> sorted (floodedPorts (snd (fst r))) \<and> distinct (floodedPorts (snd (fst r)))
            \<and> set (floodedPorts (snd (fst r))) = {1..numPorts s} - {inPort}"
    using e floodingPorts_sorted [of "numPorts s" inPort]
      floodingPorts_distinct [of "numPorts s" inPort]
      floodingPorts_set [of "numPorts s" inPort]
      floodingPorts_filter [of "numPorts s" inPort]
    by simp
  from a b c f show ?thesis by blast
qed

theorem C1_flood_iff_witness:
  "action (snd (fst (processFrame ''AA:AA:AA:AA:AA:AA'' ''FF:FF:FF:FF:FF:FF'' 3 0 (newSwitch 8 300))))
     = Flood 3
   \<and> snd (fst (processFrame ''AA:AA:AA:AA:AA:AA'' ''FF:FF:FF:FF:FF:FF'' 3 0 (newSwitch 8 300)))
     = BroadcastFlood 3 [1, 2, 4, 5, 6, 7, 8]
   \<and> floodedPorts (snd (fst (processFrame ''AA:AA:AA:AA:AA:AA'' ''FF:FF:FF:FF:FF:FF'' 3 0
        (newSwitch 8 300)))) = filter (\<lambda>j. j \<noteq> 3) [1..8]"
  using C1_flood_iff [of "''AA:AA:AA:AA:AA:AA''" "''FF:FF:FF:FF:FF:FF''" 3 0 "newSwitch 8 300"]
  by (simp add: processFrame_def learningPhase_def forwardingDecision_def newSwitch_def
      floodingPorts_def floodLoop.simps)

lemma forwardingDecision_known:
  "dest \<noteq> ''FF:FF:FF:FF:FF:FF'' \<Longrightarrow> macTable s dest = Some e \<Longrightarrow>
     forwardingDecision dest p s =
       (if port e = p then (Filtering p, s)
        else (Forwarding (port e), s\<lparr>forwardingEvents := forwardingEvents s + 1\<rparr>))"
  by (simp add: forwardingDecision_def Let_def)

text \<open>
  C2: let the non-broadcast destination of the frame be in the table at port p once the
  learning step of the call has run. If p is the incoming port, the decision is Drop and
  forwardingEvents keeps its value; otherwise the decision is Deliver(p) and
  forwardingEvents is one more than before the call.
\<close>

theorem C2_known_unicast:
  fixes src dest :: string and inPort :: int and now :: time_point and s :: Switch
  defines "learned \<equiv>
    snd (learningPhase src inPort now (s\<lparr>framesProcessed := framesProcessed s + 1\<rparr>))"
  defines "r \<equiv> processFrame src dest inPort now s"
  assumes "dest \<noteq> ''FF:FF:FF:FF:FF:FF''" and "macTable learned dest = Some e"
  shows "(port e = inPort \<longrightarrow>
            action (snd (fst r)) = Drop \<and> forwardingEvents (snd r) = forwardingEvents s)
       \<and> (port e \<noteq> inPort \<longrightarrow>
            action (snd (fst r)) = Deliver (port e)
            \<and> forwardingEvents (snd r) = forwardingEvents s + 1)"
proof -
  have fe: "forwardingEvents learned = forwardingEvents s"
    by (simp add: learned_def learningPhase_other)
  have r: "r = ((fst (learningPhase src inPort now (s\<lparr>framesProcessed := framesProcessed s + 1\<rparr>)),
                 fst (forwardingDecision dest inPort learned)),
                snd (forwardingDecision dest inPort learned))"
    by (simp add: r_def learned_def processFrame_split)
  show ?thesis
    using forwardingDecision_known [OF assms(3) assms(4), of inPort] fe
    by (simp add: r)
qed

theorem C2_known_unicast_witness:
  "action (snd (fst (processFrame ''BB:BB:BB:BB:BB:BB'' ''AA:AA:AA:AA:AA:AA'' 2 7
       (snd (processFrame ''AA:AA:AA:AA:AA:AA'' ''FF:FF:FF:FF:FF:FF'' 1 0 (newSwitch 8 300))))))
     = Deliver 1
   \<and> forwardingEvents (snd (processFrame ''BB:BB:BB:BB:BB:BB'' ''AA:AA:AA:AA:AA:AA'' 2 7
       (snd (processFrame ''AA:AA:AA:AA:AA:AA'' ''FF:FF:FF:FF:FF:FF'' 1 0 (newSwitch 8 300))))) = 1
   \<and> action (snd (fst (processFrame ''BB:BB:BB:BB:BB:BB'' ''AA:AA:AA:AA:AA:AA'' 1 7
       (snd (processFrame ''AA:AA:AA:AA:AA:AA'' ''FF:FF:FF:FF:FF:FF'' 1 0 (newSwitch 8 300))))))
     = Drop
   \<and> forwardingEvents (snd (processFrame ''BB:BB:BB:BB:BB:BB'' ''AA:AA:AA:AA:AA:AA'' 1 7
       (snd (processFrame ''AA:AA:AA:AA:AA:AA'' ''FF:FF:FF:FF:FF:FF'' 1 0 (newSwitch 8 300))))) = 0"
proof -
  let ?s = "snd (processFrame ''AA:AA:AA:AA:AA:AA'' ''FF:FF:FF:FF:FF:FF'' 1 0 (newSwitch 8 300))"
  have h1: "''AA:AA:AA:AA:AA:AA'' \<noteq> ''FF:FF:FF:FF:FF:FF''" by simp
  have h2: "macTable (snd (learningPhase ''BB:BB:BB:BB:BB:BB'' p 7
              (?s\<lparr>framesProcessed := framesProcessed ?s + 1\<rparr>))) ''AA:AA:AA:AA:AA:AA''
            = Some \<lparr>port = 1, timestamp = 0\<rparr>" for p
    by (simp add: learningPhase_table processFrame_table)
  have fe: "forwardingEvents ?s = 0"
    by (simp add: processFrame_def learningPhase_def forwardingDecision_def newSwitch_def)
  show ?thesis
    using C2_known_unicast [OF h1 h2 [of 2]] C2_known_unicast [OF h1 h2 [of 1]] fe by simp
qed

text \<open>
  C3: learning comes before the forwarding decision. On an empty table,
  processFrame(src = "AA", dest = "CC", inPort = 1) decides Flood(excludePort = 1) and the
  table then holds "AA" at port 1. After any call the table holds the frame's source
  address at the incoming port, with the clock reading of the call. The decision already
  sees the entry just learned: a frame addressed to its own source, unless that is the
  broadcast address, is dropped whatever the table was.
\<close>

theorem C3_learn_before_decide:
  "(macTable s = Map.empty \<longrightarrow>
      action (snd (fst (processFrame ''AA'' ''CC'' 1 now s))) = Flood 1
      \<and> portOf (snd (processFrame ''AA'' ''CC'' 1 now s)) ''AA'' = Some 1)
   \<and> portOf (snd (processFrame src dest inPort now s)) src = Some inPort
   \<and> macTable (snd (processFrame src dest inPort now s)) src
       = Some \<lparr>port = inPort, timestamp = now\<rparr>
   \<and> (src \<noteq> ''FF:FF:FF:FF:FF:FF'' \<longrightarrow>
        action (snd (fst (processFrame src src inPort now s))) = Drop)"
proof -
  have a: "macTable s = Map.empty \<longrightarrow>
      action (snd (fst (processFrame ''AA'' ''CC'' 1 now s))) = Flood 1"
    by (simp add: processFrame_split forwardingDecision_def learningPhase_table)
  have b: "macTable (snd (processFrame x dest p now s)) x = Some \<lparr>port = p, timestamp = now\<rparr>"
    for x p
    by (simp add: processFrame_table)
  have c: "src \<noteq> ''FF:FF:FF:FF:FF:FF'' \<longrightarrow>
        action (snd (fst (processFrame src src inPort now s))) = Drop"
    by (simp add: processFrame_split forwardingDecision_def learningPhase_table)
  show ?thesis
    using a c by (simp add: portOf_def processFrame_table)
qed

theorem C3_learn_before_decide_witness:
  "macTable (newSwitch 8 300) = Map.empty
   \<and> action (snd (fst (processFrame ''AA'' ''CC'' 1 0 (newSwitch 8 300)))) = Flood 1
   \<and> portOf (snd (processFrame ''AA'' ''CC'' 1 0 (newSwitch 8 300))) ''AA'' = Some 1
   \<and> ''AA'' \<noteq> ''FF:FF:FF:FF:FF:FF''
   \<and> action (snd (fst (processFrame ''AA'' ''AA'' 1 0 (newSwitch 8 300)))) = Drop"
  using C3_learn_before_decide [of "newSwitch 8 300" 0 "''AA''" "''CC''" 1]
  by (simp add: newSwitch_def)

section \<open>Ports outside the range, and the statistics\<close>

lemma processFrame_framesProcessed:
  "framesProcessed (snd (processFrame src dest p now s)) = framesProcessed s + 1"
  by (simp add: processFrame_split forwardingDecision_other learningPhase_other)

lemma processFrame_learningEvents:
  "learningEvents (snd (processFrame src dest p now s)) =
     (if macTable s src = None then learningEvents s + 1 else learningEvents s)"
  by (simp add: processFrame_split forwardingDecision_other learningPhase_learningEvents)

lemma processFrame_outcome:
  "fst (fst (processFrame src dest p now s)) =
     (case macTable s src of None \<Rightarrow> New
      | Some e \<Rightarrow> if port e \<noteq> p then Moved (port e) else Refreshed)"
  by (simp add: processFrame_split learningPhase_outcome)

lemma processFrame_flooded:
  "action (snd (fst (processFrame src dest p now s))) = Flood q \<Longrightarrow>
     floodedPorts (snd (fst (processFrame src dest p now s))) = floodingPorts (numPorts s) p"
  using forwardingDecision_flooded
    [of dest p "snd (learningPhase src p now (s\<lparr>framesProcessed := framesProcessed s + 1\<rparr>))" q]
  by (simp add: processFrame_split learningPhase_other)

text \<open>
  C5 (as stated): a call with an incoming port outside [1, numPorts] fails with
  InvalidPort and leaves the table as it was. The code has no such check: on a switch
  with 8 ports, a frame arriving on "port 99" is processed like any other, its source is
  entered in the table at port 99, and the frame is flooded to all 8 ports.
\<close>

theorem C5_invalid_port_counterexample:
  "\<not> (1 \<le> (99::int) \<and> 99 \<le> numPorts (newSwitch 8 300))
   \<and> fst (processFrame ''AA:AA:AA:AA:AA:AA'' ''BB:BB:BB:BB:BB:BB'' 99 0 (newSwitch 8 300))
       = (New, UnknownUnicastFlood 99 [1, 2, 3, 4, 5, 6, 7, 8])
   \<and> macTable (newSwitch 8 300) ''AA:AA:AA:AA:AA:AA'' = None
   \<and> macTable (snd (processFrame ''AA:AA:AA:AA:AA:AA'' ''BB:BB:BB:BB:BB:BB'' 99 0
        (newSwitch 8 300))) ''AA:AA:AA:AA:AA:AA'' = Some \<lparr>port = 99, timestamp = 0\<rparr>"
  by (simp add: processFrame_def learningPhase_def forwardingDecision_def newSwitch_def
      floodingPorts_def floodLoop.simps)

text \<open>
  C5 (amended): processFrame does not validate the incoming port. A call with inPort
  outside [1, numPorts] completes like any other call: the frame is counted, the table
  afterwards holds the source address at inPort and is unchanged at every other address,
  and when the decision is a flood, the ports listed are all of [1, numPorts].
\<close>

theorem C5_no_port_validation:
  fixes src dest :: string and inPort :: int and now :: time_point and s :: Switch
  defines "r \<equiv> processFrame src dest inPort now s"
  assumes "inPort < 1 \<or> numPorts s < inPort"
  shows "framesProcessed (snd r) = framesProcessed s + 1
       \<and> macTable (snd r) src = Some \<lparr>port = inPort, timestamp = now\<rparr>
       \<and> (\<forall>a. a \<noteq> src \<longrightarrow> macTable (snd r) a = macTable s a)
       \<and> (action (snd (fst r)) = Flood inPort \<longrightarrow> floodedPorts (snd (fst r)) = [1..numPorts s])"
proof -
  have "filter (\<lambda>j. j \<noteq> inPort) [1..numPorts s] = [1..numPorts s]"
    using assms(2) by (auto simp: filter_id_conv)
  then have "floodingPorts (numPorts s) inPort = [1..numPorts s]"
    by (simp add: floodingPorts_filter)
  then have "action (snd (fst r)) = Flood inPort \<longrightarrow> floodedPorts (snd (fst r)) = [1..numPorts s]"
    using processFrame_flooded [of src dest inPort now s inPort] by (simp add: r_def)
  then show ?thesis
    by (simp add: r_def processFrame_framesProcessed processFrame_table)
qed

theorem C5_no_port_validation_witness:
  "((99::int) < 1 \<or> numPorts (newSwitch 8 300) < 99)
   \<and> framesProcessed (snd (processFrame ''AA:AA:AA:AA:AA:AA'' ''BB:BB:BB:BB:BB:BB'' 99 0
        (newSwitch 8 300))) = 1
   \<and> macTable (snd (processFrame ''AA:AA:AA:AA:AA:AA'' ''BB:BB:BB:BB:BB:BB'' 99 0
        (newSwitch 8 300))) ''AA:AA:AA:AA:AA:AA'' = Some \<lparr>port = 99, timestamp = 0\<rparr>
   \<and> ''CC:CC:CC:CC:CC:CC'' \<noteq> ''AA:AA:AA:AA:AA:AA''
   \<and> macTable (snd (processFrame ''AA:AA:AA:AA:AA:AA'' ''BB:BB:BB:BB:BB:BB'' 99 0
        (newSwitch 8 300))) ''CC:CC:CC:CC:CC:CC'' = None
   \<and> action (snd (fst (processFrame ''AA:AA:AA:AA:AA:AA'' ''BB:BB:BB:BB:BB:BB'' 99 0
        (newSwitch 8 300)))) = Flood 99
   \<and> floodedPorts (snd (fst (processFrame ''AA:AA:AA:AA:AA:AA'' ''BB:BB:BB:BB:BB:BB'' 99 0
        (newSwitch 8 300)))) = [1..8]"
proof -
  have h: "(99::int) < 1 \<or> numPorts (newSwitch 8 300) < 99"
    by (simp add: newSwitch_def)
  have f: "action (snd (fst (processFrame ''AA:AA:AA:AA:AA:AA'' ''BB:BB:BB:BB:BB:BB'' 99 0
        (newSwitch 8 300)))) = Flood 99"
    by (simp add: processFrame_split forwardingDecision_def learningPhase_table newSwitch_def)
  have n: "numPorts (newSwitch 8 300) = 8" "framesProcessed (newSwitch 8 300) = 0"
    "macTable (newSwitch 8 300) ''CC:CC:CC:CC:CC:CC'' = None"
    by (simp_all add: newSwitch_def)
  show ?thesis
    using h f C5_no_port_validation [OF h, of "''AA:AA:AA:AA:AA:AA''" "''BB:BB:BB:BB:BB:BB''" 0]
    by (simp add: n)
qed

text \<open>
  C6 (as stated): learningEvents is incremented when the learn outcome is New or Moved.
  In the code only the branch for a new address increments it. After "AA:BB:CC:DD:EE:FF"
  has been learned on port 1, a frame from it on port 3 takes the moved branch (old port
  1) and learningEvents keeps its value 1.
\<close>

theorem C6_moved_not_counted_counterexample:
  "fst (fst (processFrame ''AA:BB:CC:DD:EE:FF'' ''11:22:33:44:55:66'' 3 9
       (snd (processFrame ''AA:BB:CC:DD:EE:FF'' ''11:22:33:44:55:66'' 1 0 (newSwitch 4 0)))))
     = Moved 1
   \<and> learningEvents (snd (processFrame ''AA:BB:CC:DD:EE:FF'' ''11:22:33:44:55:66'' 1 0
        (newSwitch 4 0))) = 1
   \<and> learningEvents (snd (processFrame ''AA:BB:CC:DD:EE:FF'' ''11:22:33:44:55:66'' 3 9
       (snd (processFrame ''AA:BB:CC:DD:EE:FF'' ''11:22:33:44:55:66'' 1 0 (newSwitch 4 0)))))
     = 1"
  by (simp add: processFrame_def learningPhase_def forwardingDecision_def newSwitch_def
      floodingPorts_def)

text \<open>
  C6 (amended): every processFrame call increments framesProcessed by exactly one, and
  increments learningEvents by one exactly when the learn outcome is New (the source
  address was absent); a Moved outcome (present at another port) and a Refreshed outcome
  (present at the same port) leave learningEvents unchanged.
\<close>

theorem C6_counters:
  fixes src dest :: string and inPort :: int and now :: time_point and s :: Switch
  defines "r \<equiv> processFrame src dest inPort now s"
  shows "framesProcessed (snd r) = framesProcessed s + 1
       \<and> (fst (fst r) = New) = (macTable s src = None)
       \<and> (fst (fst r) = Moved q) = (\<exists>e. macTable s src = Some e \<and> port e = q \<and> q \<noteq> inPort)
       \<and> (fst (fst r) = Refreshed) = (\<exists>e. macTable s src = Some e \<and> port e = inPort)
       \<and> (fst (fst r) = New \<longrightarrow> learningEvents (snd r) = learningEvents s + 1)
       \<and> (fst (fst r) \<noteq> New \<longrightarrow> learningEvents (snd r) = learningEvents s)"
proof (cases "macTable s src")
  case None
  then show ?thesis
    by (simp add: r_def processFrame_framesProcessed processFrame_learningEvents
        processFrame_outcome)
next
  case (Some e)
  then show ?thesis
    by (auto simp: r_def processFrame_framesProcessed processFrame_learningEvents
        processFrame_outcome)
qed

theorem C6_counters_witness:
  "fst (fst (processFrame ''AA:BB:CC:DD:EE:FF'' ''11:22:33:44:55:66'' 1 0 (newSwitch 4 0))) = New
   \<and> framesProcessed (snd (processFrame ''AA:BB:CC:DD:EE:FF'' ''11:22:33:44:55:66'' 1 0
        (newSwitch 4 0))) = 1
   \<and> learningEvents (snd (processFrame ''AA:BB:CC:DD:EE:FF'' ''11:22:33:44:55:66'' 1 0
        (newSwitch 4 0))) = 1
   \<and> fst (fst (processFrame ''AA:BB:CC:DD:EE:FF'' ''11:22:33:44:55:66'' 1 9
       (snd (processFrame ''AA:BB:CC:DD:EE:FF'' ''11:22:33:44:55:66'' 1 0 (newSwitch 4 0)))))
     \<noteq> New
   \<and> learningEvents (snd (processFrame ''AA:BB:CC:DD:EE:FF'' ''11:22:33:44:55:66'' 1 9
       (snd (processFrame ''AA:BB:CC:DD:EE:FF'' ''11:22:33:44:55:66'' 1 0 (newSwitch 4 0)))))
     = learningEvents (snd (processFrame ''AA:BB:CC:DD:EE:FF'' ''11:22:33:44:55:66'' 1 0
        (newSwitch 4 0)))"
  using C6_counters [of "''AA:BB:CC:DD:EE:FF''" "''11:22:33:44:55:66''" 1 0 "newSwitch 4 0"]
    C6_counters [of "''AA:BB:CC:DD:EE:FF''" "''11:22:33:44:55:66''" 1 9
      "snd (processFrame ''AA:BB:CC:DD:EE:FF'' ''11:22:33:44:55:66'' 1 0 (newSwitch 4 0))"]
  by (simp add: newSwitch_def processFrame_table)

section \<open>Effect on the table\<close>

lemma step_keeps_entries:
  "macTable s a \<noteq> None \<Longrightarrow> c \<noteq> CleanupTable \<Longrightarrow> c \<noteq> ClearMACTable \<Longrightarrow>
     macTable (snd (step c t s)) a \<noteq> None"
  by (cases c) (simp_all add: split_beta processFrameF_def processFrame_table advanceCycle_def)

text \<open>
  C7: processFrame changes the table at most at the frame's source address, where an
  entry exists afterwards; every other address keeps its entry, unchanged, or stays
  absent, so every entry that existed before the call still exists. Besides the table it
  changes only the statistics counters: the number of ports, the aging timeout and the
  cycle counter keep their values. Among the calls of the interface, only cleanupTable
  and clearMACTable can make an entry disappear.
\<close>

theorem C7_processFrame_keeps_entries:
  fixes src dest :: string and inPort :: int and now :: time_point and s :: Switch
  defines "s' \<equiv> snd (processFrame src dest inPort now s)"
  shows "(a \<noteq> src \<longrightarrow> macTable s' a = macTable s a)
       \<and> macTable s' src \<noteq> None
       \<and> (macTable s a \<noteq> None \<longrightarrow> macTable s' a \<noteq> None)
       \<and> numPorts s' = numPorts s \<and> agingTimeout s' = agingTimeout s
       \<and> currentCycle s' = currentCycle s
       \<and> (macTable s a \<noteq> None \<and> macTable (snd (step c t s)) a = None \<longrightarrow>
            c = CleanupTable \<or> c = ClearMACTable)"
proof -
  have "macTable s a \<noteq> None \<and> macTable (snd (step c t s)) a = None \<longrightarrow>
          c = CleanupTable \<or> c = ClearMACTable"
    using step_keeps_entries [of s a c t] by blast
  then show ?thesis
    by (simp add: s'_def processFrame_table processFrame_config)
qed

theorem C7_processFrame_keeps_entries_witness:
  "''AA'' \<noteq> ''BB''
   \<and> macTable (snd (processFrame ''AA'' ''CC'' 1 0 (newSwitch 8 300))) ''AA'' \<noteq> None
   \<and> macTable (snd (processFrame ''BB'' ''AA'' 2 5
        (snd (processFrame ''AA'' ''CC'' 1 0 (newSwitch 8 300))))) ''AA''
     = macTable (snd (processFrame ''AA'' ''CC'' 1 0 (newSwitch 8 300))) ''AA''
   \<and> macTable (snd (step ClearMACTable 6
        (snd (processFrame ''AA'' ''CC'' 1 0 (newSwitch 8 300))))) ''AA'' = None"
  using C7_processFrame_keeps_entries [where a = "''AA''" and src = "''BB''"
      and dest = "''AA''" and inPort = 2 and now = 5
      and s = "snd (processFrame ''AA'' ''CC'' 1 0 (newSwitch 8 300))"
      and c = ClearMACTable and t = 6]
  by (simp add: clearMACTable_def processFrame_table)

section \<open>Textual addresses\<close>

text \<open>
  C9 (as stated): addresses that differ only in the case of their hexadecimal digits
  denote the same table entry, and a lowercase all-ones address is taken as broadcast.
  The code compares the strings as they are. After a frame from "aa:aa:aa:aa:aa:aa" the
  address "AA:AA:AA:AA:AA:AA" is not in the table. A frame to "ff:ff:ff:ff:ff:ff" takes
  the unknown-unicast branch, not the broadcast branch; and once a frame with that source
  address has been seen on port 3, a frame to it is forwarded to port 3 instead of being
  flooded.
\<close>

theorem C9_case_sensitive_counterexample:
  "sameUpToCase ''aa:aa:aa:aa:aa:aa'' ''AA:AA:AA:AA:AA:AA''
   \<and> isLearned (snd (processFrame ''aa:aa:aa:aa:aa:aa'' ''BB:BB:BB:BB:BB:BB'' 1 0
        (newSwitch 8 300))) ''aa:aa:aa:aa:aa:aa''
   \<and> \<not> isLearned (snd (processFrame ''aa:aa:aa:aa:aa:aa'' ''BB:BB:BB:BB:BB:BB'' 1 0
        (newSwitch 8 300))) ''AA:AA:AA:AA:AA:AA''
   \<and> sameUpToCase ''ff:ff:ff:ff:ff:ff'' ''FF:FF:FF:FF:FF:FF''
   \<and> snd (fst (processFrame ''AA:AA:AA:AA:AA:AA'' ''ff:ff:ff:ff:ff:ff'' 1 0 (newSwitch 8 300)))
       = UnknownUnicastFlood 1 [2, 3, 4, 5, 6, 7, 8]
   \<and> snd (fst (processFrame ''AA:AA:AA:AA:AA:AA'' ''ff:ff:ff:ff:ff:ff'' 1 5
        (snd (processFrame ''ff:ff:ff:ff:ff:ff'' ''BB:BB:BB:BB:BB:BB'' 3 0 (newSwitch 8 300)))))
       = Forwarding 3"
  by (simp add: sameUpToCase_def upperHex_def isLearned_def processFrame_def learningPhase_def
      forwardingDecision_def newSwitch_def floodingPorts_def floodLoop.simps)

text \<open>
  C9 (amended): address handling is case-sensitive and nothing is canonicalised. The
  source address is stored as the string given; learning one address leaves the entry of
  every different string as it was, whether or not the two differ only in case; and the
  broadcast branch is taken exactly when the destination is the string
  "FF:FF:FF:FF:FF:FF".
\<close>

theorem C9_exact_strings:
  fixes src dest :: string and inPort :: int and now :: time_point and s :: Switch
  defines "r \<equiv> processFrame src dest inPort now s"
  shows "isLearned (snd r) src \<and> portOf (snd r) src = Some inPort
       \<and> (b \<noteq> src \<longrightarrow> macTable (snd r) b = macTable s b)
       \<and> (b \<noteq> src \<longrightarrow> isLearned (snd r) b = isLearned s b)
       \<and> (\<exists>ps. snd (fst r) = BroadcastFlood inPort ps) = (dest = ''FF:FF:FF:FF:FF:FF'')"
proof -
  have "(\<exists>ps. snd (fst r) = BroadcastFlood inPort ps) = (dest = ''FF:FF:FF:FF:FF:FF'')"
    using forwardingDecision_is_broadcast [of dest inPort
        "snd (learningPhase src inPort now (s\<lparr>framesProcessed := framesProcessed s + 1\<rparr>))"]
    by (simp add: r_def processFrame_split)
  then show ?thesis
    by (simp add: r_def isLearned_def portOf_def processFrame_table)
qed

theorem C9_exact_strings_witness:
  "''AA:AA:AA:AA:AA:AA'' \<noteq> ''aa:aa:aa:aa:aa:aa''
   \<and> isLearned (snd (processFrame ''aa:aa:aa:aa:aa:aa'' ''FF:FF:FF:FF:FF:FF'' 1 0
        (newSwitch 8 300))) ''AA:AA:AA:AA:AA:AA'' = isLearned (newSwitch 8 300) ''AA:AA:AA:AA:AA:AA''
   \<and> (\<exists>ps. snd (fst (processFrame ''aa:aa:aa:aa:aa:aa'' ''FF:FF:FF:FF:FF:FF'' 1 0
        (newSwitch 8 300))) = BroadcastFlood 1 ps)"
  using C9_exact_strings [where b = "''AA:AA:AA:AA:AA:AA''" and src = "''aa:aa:aa:aa:aa:aa''"
      and dest = "''FF:FF:FF:FF:FF:FF''" and inPort = 1 and now = 0 and s = "newSwitch 8 300"]
  by simp

section \<open>The two overloads\<close>

text \<open>
  C10: the overload taking a frame behaves as the overload taking the two addresses: for
  every frame built from src, dest, type and data, it gives the same report (learning
  outcome and decision) and the same state, counters included; the etherType and payload
  of the frame have no influence.
\<close>

theorem C10_overloads_agree:
  "processFrameF \<lparr>sourceMAC = src, destMAC = dest, etherType = ty, payload = data\<rparr> inPort now s
     = processFrame src dest inPort now s
   \<and> processFrameF (f\<lparr>etherType := ty', payload := data'\<rparr>) inPort now s
     = processFrameF f inPort now s
   \<and> step (ProcessFrameF \<lparr>sourceMAC = src, destMAC = dest, etherType = ty, payload = data\<rparr> inPort)
        now s
     = step (ProcessFrame src dest inPort) now s"
  by (simp add: processFrameF_def)

theorem C10_overloads_agree_witness:
  "processFrameF \<lparr>sourceMAC = ''AA:AA:AA:AA:AA:AA'', destMAC = ''BB:BB:BB:BB:BB:BB'',
       etherType = ''ARP'', payload = ''who-has''\<rparr> 1 0 (newSwitch 8 300)
     = processFrame ''AA:AA:AA:AA:AA:AA'' ''BB:BB:BB:BB:BB:BB'' 1 0 (newSwitch 8 300)"
  using C10_overloads_agree [of "''AA:AA:AA:AA:AA:AA''" "''BB:BB:BB:BB:BB:BB''" "''ARP''"
      "''who-has''" 1 0 "newSwitch 8 300"]
  by simp

section \<open>Aging\<close>

lemma less_div_iff_int:
  fixes n d T :: int
  assumes "0 < T"
  shows "(n < d div T) = ((n + 1) * T \<le> d)"
proof
  assume "n < d div T"
  then have "n + 1 \<le> d div T" by simp
  then have "(n + 1) * T \<le> (d div T) * T"
    using assms by (simp add: mult_right_mono)
  moreover have "d div T * T + d mod T = d"
    by simp
  moreover have "0 \<le> d mod T"
    using assms by simp
  ultimately show "(n + 1) * T \<le> d"
    by linarith
next
  assume le: "(n + 1) * T \<le> d"
  have "n + 1 \<le> d div T"
    using zdiv_mono1 [OF le assms] assms by simp
  then show "n < d div T" by simp
qed

lemma elapsedSeconds_gt_iff:
  assumes "0 \<le> n"
  shows "(n < elapsedSeconds now ts) = ((n + 1) * ticksPerSecond \<le> now - ts)"
proof (cases "0 \<le> now - ts")
  case True
  have "(n < (now - ts) div ticksPerSecond) = ((n + 1) * ticksPerSecond \<le> now - ts)"
    by (rule less_div_iff_int) (simp add: ticksPerSecond_def)
  with True show ?thesis
    by (simp add: elapsedSeconds_def Let_def)
next
  case False
  then have "0 \<le> (- (now - ts)) div ticksPerSecond"
    by (simp add: ticksPerSecond_def pos_imp_zdiv_nonneg_iff)
  then have "\<not> n < elapsedSeconds now ts"
    using False assms by (simp add: elapsedSeconds_def Let_def)
  moreover have "\<not> (n + 1) * ticksPerSecond \<le> now - ts"
  proof
    assume a: "(n + 1) * ticksPerSecond \<le> now - ts"
    have "0 \<le> (n + 1) * ticksPerSecond"
      using assms by (simp add: ticksPerSecond_def)
    with a False show False by simp
  qed
  ultimately show ?thesis by simp
qed

lemma cleanupTable_entry:
  "0 < agingTimeout s \<Longrightarrow>
     macTable (cleanupTable now s) a =
       (case macTable s a of None \<Rightarrow> None
        | Some e \<Rightarrow> if agingTimeout s < elapsedSeconds now (timestamp e) then None else Some e)"
  by (simp add: cleanupTable_def)

text \<open>
  C4 (as stated): cleanupTable removes exactly the entries with now - lastSeen strictly
  greater than the timeout. The code compares the elapsed time converted to whole
  seconds, so an entry that is older than the timeout by less than one second stays. With
  a timeout of 5 seconds, an entry last seen at tick 0 is still in the table after a
  cleanup at 5.5 seconds.
\<close>

theorem C4_subsecond_counterexample:
  "agingTimeout (snd (processFrame ''AA:AA:AA:AA:AA:AA'' ''BB:BB:BB:BB:BB:BB'' 1 0 (newSwitch 4 5)))
     * ticksPerSecond < 5500000000 - 0
   \<and> macTable (snd (processFrame ''AA:AA:AA:AA:AA:AA'' ''BB:BB:BB:BB:BB:BB'' 1 0 (newSwitch 4 5)))
        ''AA:AA:AA:AA:AA:AA'' = Some \<lparr>port = 1, timestamp = 0\<rparr>
   \<and> macTable (cleanupTable 5500000000
        (snd (processFrame ''AA:AA:AA:AA:AA:AA'' ''BB:BB:BB:BB:BB:BB'' 1 0 (newSwitch 4 5))))
        ''AA:AA:AA:AA:AA:AA'' = Some \<lparr>port = 1, timestamp = 0\<rparr>"
  by (simp add: cleanupTable_def elapsedSeconds_def ticksPerSecond_def processFrame_def
      learningPhase_def forwardingDecision_def newSwitch_def floodingPorts_def)

text \<open>
  C4 (amended): with a timeout of at most 0, cleanupTable leaves the state unchanged.
  With a positive timeout it removes exactly the entries whose elapsed time
  now - lastSeen, in whole seconds (truncated), is strictly greater than the timeout,
  that is, the entries with now - lastSeen of at least timeout + 1 seconds. An entry with
  now - lastSeen equal to the timeout survives, an entry that stays is unchanged, an
  absent address stays absent, and nothing but the table changes.
\<close>

theorem C4_cleanupTable:
  "(agingTimeout s \<le> 0 \<longrightarrow> cleanupTable now s = s)
   \<and> (macTable s a = None \<longrightarrow> macTable (cleanupTable now s) a = None)
   \<and> (0 < agingTimeout s \<and> macTable s a = Some e \<longrightarrow>
        (macTable (cleanupTable now s) a = None)
           = (agingTimeout s < elapsedSeconds now (timestamp e))
        \<and> (macTable (cleanupTable now s) a = None)
           = ((agingTimeout s + 1) * ticksPerSecond \<le> now - timestamp e)
        \<and> (macTable (cleanupTable now s) a \<noteq> None \<longrightarrow> macTable (cleanupTable now s) a = Some e)
        \<and> (now - timestamp e = agingTimeout s * ticksPerSecond \<longrightarrow>
             macTable (cleanupTable now s) a = Some e))
   \<and> numPorts (cleanupTable now s) = numPorts s
   \<and> agingTimeout (cleanupTable now s) = agingTimeout s
   \<and> currentCycle (cleanupTable now s) = currentCycle s
   \<and> counters (cleanupTable now s) = counters s"
proof -
  have a: "agingTimeout s \<le> 0 \<longrightarrow> cleanupTable now s = s"
    by (simp add: cleanupTable_def)
  have b: "macTable s a = None \<longrightarrow> macTable (cleanupTable now s) a = None"
    by (simp add: cleanupTable_def)
  have c: "0 < agingTimeout s \<and> macTable s a = Some e \<longrightarrow>
        (macTable (cleanupTable now s) a = None)
           = (agingTimeout s < elapsedSeconds now (timestamp e))
        \<and> (macTable (cleanupTable now s) a = None)
           = ((agingTimeout s + 1) * ticksPerSecond \<le> now - timestamp e)
        \<and> (macTable (cleanupTable now s) a \<noteq> None \<longrightarrow> macTable (cleanupTable now s) a = Some e)
        \<and> (now - timestamp e = agingTimeout s * ticksPerSecond \<longrightarrow>
             macTable (cleanupTable now s) a = Some e)"
  proof
    assume h: "0 < agingTimeout s \<and> macTable s a = Some e"
    then have pos: "0 \<le> agingTimeout s" by simp
    have t: "macTable (cleanupTable now s) a =
               (if agingTimeout s < elapsedSeconds now (timestamp e) then None else Some e)"
      using h by (simp add: cleanupTable_entry)
    have i: "(agingTimeout s < elapsedSeconds now (timestamp e))
               = ((agingTimeout s + 1) * ticksPerSecond \<le> now - timestamp e)"
      by (rule elapsedSeconds_gt_iff [OF pos])
    have j: "now - timestamp e = agingTimeout s * ticksPerSecond \<longrightarrow>
               \<not> (agingTimeout s + 1) * ticksPerSecond \<le> now - timestamp e"
      by (simp add: ticksPerSecond_def algebra_simps)
    show "(macTable (cleanupTable now s) a = None)
           = (agingTimeout s < elapsedSeconds now (timestamp e))
        \<and> (macTable (cleanupTable now s) a = None)
           = ((agingTimeout s + 1) * ticksPerSecond \<le> now - timestamp e)
        \<and> (macTable (cleanupTable now s) a \<noteq> None \<longrightarrow> macTable (cleanupTable now s) a = Some e)
        \<and> (now - timestamp e = agingTimeout s * ticksPerSecond \<longrightarrow>
             macTable (cleanupTable now s) a = Some e)"
      using i j by (simp add: t)
  qed
  have d: "numPorts (cleanupTable now s) = numPorts s
   \<and> agingTimeout (cleanupTable now s) = agingTimeout s
   \<and> currentCycle (cleanupTable now s) = currentCycle s
   \<and> counters (cleanupTable now s) = counters s"
    by (simp add: cleanupTable_def counters_def)
  from a b c d show ?thesis by blast
qed

theorem C4_cleanupTable_witness:
  "macTable (cleanupTable 5000000000
        (snd (processFrame ''AA:AA:AA:AA:AA:AA'' ''BB:BB:BB:BB:BB:BB'' 1 0 (newSwitch 4 5))))
        ''AA:AA:AA:AA:AA:AA'' = Some \<lparr>port = 1, timestamp = 0\<rparr>
   \<and> macTable (cleanupTable 6000000000
        (snd (processFrame ''AA:AA:AA:AA:AA:AA'' ''BB:BB:BB:BB:BB:BB'' 1 0 (newSwitch 4 5))))
        ''AA:AA:AA:AA:AA:AA'' = None
   \<and> cleanupTable 6000000000
        (snd (processFrame ''AA:AA:AA:AA:AA:AA'' ''BB:BB:BB:BB:BB:BB'' 1 0 (newSwitch 4 0)))
      = snd (processFrame ''AA:AA:AA:AA:AA:AA'' ''BB:BB:BB:BB:BB:BB'' 1 0 (newSwitch 4 0))"
proof -
  let ?s = "snd (processFrame ''AA:AA:AA:AA:AA:AA'' ''BB:BB:BB:BB:BB:BB'' 1 0 (newSwitch 4 5))"
  let ?z = "snd (processFrame ''AA:AA:AA:AA:AA:AA'' ''BB:BB:BB:BB:BB:BB'' 1 0 (newSwitch 4 0))"
  let ?e = "\<lparr>port = 1, timestamp = 0\<rparr>"
  have h1: "agingTimeout ?s = 5"
    by (simp add: processFrame_config newSwitch_def)
  have h2: "macTable ?s ''AA:AA:AA:AA:AA:AA'' = Some ?e"
    by (simp add: processFrame_table)
  have h3: "agingTimeout ?z = 0"
    by (simp add: processFrame_config newSwitch_def)
  have h: "0 < agingTimeout ?s \<and> macTable ?s ''AA:AA:AA:AA:AA:AA'' = Some ?e"
    by (simp add: h1 h2)
  have t: "5000000000 - timestamp ?e = agingTimeout ?s * ticksPerSecond"
    by (simp add: h1 ticksPerSecond_def)
  have u: "(agingTimeout ?s + 1) * ticksPerSecond \<le> 6000000000 - timestamp ?e"
    by (simp add: h1 ticksPerSecond_def)
  have z: "agingTimeout ?z \<le> 0"
    by (simp add: h3)
  have a: "macTable (cleanupTable 5000000000 ?s) ''AA:AA:AA:AA:AA:AA'' = Some ?e"
    using C4_cleanupTable [where s = ?s and now = 5000000000 and a = "''AA:AA:AA:AA:AA:AA''"
        and e = ?e] h t by blast
  have b: "macTable (cleanupTable 6000000000 ?s) ''AA:AA:AA:AA:AA:AA'' = None"
    using C4_cleanupTable [where s = ?s and now = 6000000000 and a = "''AA:AA:AA:AA:AA:AA''"
        and e = ?e] h u by blast
  have c: "cleanupTable 6000000000 ?z = ?z"
    using C4_cleanupTable [where s = ?z and now = 6000000000] z by blast
  from a b c show ?thesis by blast
qed

section \<open>The clock\<close>

lemma portOf_updates:
  "portOf (s\<lparr>framesProcessed := x\<rparr>) = portOf s"
  "portOf (s\<lparr>learningEvents := x\<rparr>) = portOf s"
  "portOf (s\<lparr>forwardingEvents := x\<rparr>) = portOf s"
  "portOf (s\<lparr>floodingEvents := x\<rparr>) = portOf s"
  "portOf (s\<lparr>currentCycle := x\<rparr>) = portOf s"
  by (simp_all add: portOf_def fun_eq_iff)

lemma agree_port:
  "agreeUpToTime s s' \<Longrightarrow> map_option port (macTable s a) = map_option port (macTable s' a)"
  by (simp add: agreeUpToTime_def portOf_def fun_eq_iff)

lemma learningPhase_agree:
  assumes "agreeUpToTime s s'"
  shows "fst (learningPhase src p t s) = fst (learningPhase src p t' s')
       \<and> agreeUpToTime (snd (learningPhase src p t s)) (snd (learningPhase src p t' s'))"
proof -
  have m: "map_option port (macTable s src) = map_option port (macTable s' src)"
    by (rule agree_port [OF assms])
  have o: "fst (learningPhase src p t s) = fst (learningPhase src p t' s')"
    using m by (cases "macTable s src"; cases "macTable s' src")
      (auto simp: learningPhase_outcome)
  have n: "(macTable s src = None) = (macTable s' src = None)"
    using m by (cases "macTable s src"; cases "macTable s' src") auto
  have q: "portOf (snd (learningPhase src p t s)) = portOf (snd (learningPhase src p t' s'))"
    using assms by (auto simp: portOf_def fun_eq_iff learningPhase_table agreeUpToTime_def)
  have c: "counters (snd (learningPhase src p t s)) = counters (snd (learningPhase src p t' s'))"
    using assms n
    by (simp add: counters_def learningPhase_other learningPhase_learningEvents
        agreeUpToTime_def)
  show ?thesis
    using assms o q c by (simp add: agreeUpToTime_def learningPhase_other)
qed

lemma forwardingDecision_agree:
  assumes "agreeUpToTime s s'"
  shows "fst (forwardingDecision dest p s) = fst (forwardingDecision dest p s')
       \<and> agreeUpToTime (snd (forwardingDecision dest p s)) (snd (forwardingDecision dest p s'))"
proof -
  have m: "map_option port (macTable s dest) = map_option port (macTable s' dest)"
    by (rule agree_port [OF assms])
  have f: "portOf s = portOf s'" "counters s = counters s'" "numPorts s = numPorts s'"
    "agingTimeout s = agingTimeout s'" "currentCycle s = currentCycle s'"
    using assms by (simp_all add: agreeUpToTime_def)
  show ?thesis
    using m f
    by (cases "macTable s dest"; cases "macTable s' dest")
      (auto simp: forwardingDecision_def Let_def agreeUpToTime_def portOf_updates counters_def)
qed

lemma processFrame_agree:
  assumes "agreeUpToTime s s'"
  shows "fst (processFrame src dest p t s) = fst (processFrame src dest p t' s')
       \<and> agreeUpToTime (snd (processFrame src dest p t s)) (snd (processFrame src dest p t' s'))"
proof -
  let ?a = "s\<lparr>framesProcessed := framesProcessed s + 1\<rparr>"
  let ?b = "s'\<lparr>framesProcessed := framesProcessed s' + 1\<rparr>"
  have "agreeUpToTime ?a ?b"
    using assms by (simp add: agreeUpToTime_def portOf_def counters_def fun_eq_iff)
  then have l: "fst (learningPhase src p t ?a) = fst (learningPhase src p t' ?b)
       \<and> agreeUpToTime (snd (learningPhase src p t ?a)) (snd (learningPhase src p t' ?b))"
    by (rule learningPhase_agree)
  then have "fst (forwardingDecision dest p (snd (learningPhase src p t ?a)))
           = fst (forwardingDecision dest p (snd (learningPhase src p t' ?b)))
       \<and> agreeUpToTime (snd (forwardingDecision dest p (snd (learningPhase src p t ?a))))
            (snd (forwardingDecision dest p (snd (learningPhase src p t' ?b))))"
    using forwardingDecision_agree by blast
  with l show ?thesis
    by (simp add: processFrame_split)
qed

lemma step_agree:
  assumes "agreeUpToTime s s'" and "agingTimeout s \<le> 0 \<or> c \<noteq> CleanupTable"
  shows "fst (step c t s) = fst (step c t' s')
       \<and> agreeUpToTime (snd (step c t s)) (snd (step c t' s'))"
proof (cases c)
  case (ProcessFrame src dest p)
  then show ?thesis
    using processFrame_agree [OF assms(1), of src dest p t t'] by (simp add: split_beta)
next
  case (ProcessFrameF f p)
  then show ?thesis
    using processFrame_agree [OF assms(1), of "sourceMAC f" "destMAC f" p t t']
    by (simp add: split_beta processFrameF_def)
next
  case CleanupTable
  then have "agingTimeout s \<le> 0" "agingTimeout s' \<le> 0"
    using assms by (simp_all add: agreeUpToTime_def)
  then show ?thesis
    using assms(1) CleanupTable by (simp add: cleanupTable_def)
next
  case ClearMACTable
  then show ?thesis
    using assms(1)
    by (simp add: clearMACTable_def agreeUpToTime_def portOf_def counters_def fun_eq_iff)
next
  case AdvanceCycle
  then show ?thesis
    using assms(1)
    by (simp add: advanceCycle_def agreeUpToTime_def portOf_def counters_def fun_eq_iff)
qed

lemma step_agingTimeout: "agingTimeout (snd (step c t s)) = agingTimeout s"
  by (cases c)
    (simp_all add: split_beta processFrameF_def processFrame_config cleanupTable_def
      clearMACTable_def advanceCycle_def)

lemma run_agree:
  "agreeUpToTime s s' \<Longrightarrow> map fst t1 = map fst t2 \<Longrightarrow>
   agingTimeout s \<le> 0 \<or> CleanupTable \<notin> set (map fst t1) \<Longrightarrow>
     fst (run t1 s) = fst (run t2 s') \<and> agreeUpToTime (snd (run t1 s)) (snd (run t2 s'))"
proof (induction t1 arbitrary: t2 s s')
  case Nil
  then show ?case by simp
next
  case (Cons x xs)
  obtain c t where x: "x = (c, t)" by (cases x)
  from Cons.prems(2) x obtain t' ys where t2: "t2 = (c, t') # ys" and m: "map fst xs = map fst ys"
    by (cases t2) auto
  have g: "agingTimeout s \<le> 0 \<or> c \<noteq> CleanupTable"
    using Cons.prems(3) x by auto
  have st: "fst (step c t s) = fst (step c t' s')
       \<and> agreeUpToTime (snd (step c t s)) (snd (step c t' s'))"
    by (rule step_agree [OF Cons.prems(1) g])
  have g': "agingTimeout (snd (step c t s)) \<le> 0 \<or> CleanupTable \<notin> set (map fst xs)"
    using Cons.prems(3) x by (auto simp: step_agingTimeout)
  have "fst (run xs (snd (step c t s))) = fst (run ys (snd (step c t' s')))
       \<and> agreeUpToTime (snd (run xs (snd (step c t s)))) (snd (run ys (snd (step c t' s'))))"
    using Cons.IH [OF _ m g'] st by blast
  with st show ?case
    by (simp add: x t2 split_beta)
qed

text \<open>
  C8 (as stated): the operations take the time from the caller, so that two runs fed the
  same sequence of calls behave identically. In the code no call has a time argument;
  processFrame and cleanupTable read the steady clock themselves. The same three calls
  (a frame from A, a cleanup, a frame from B to A) on a switch with a timeout of 5
  seconds end with a flood when the cleanup runs 6 seconds after the first frame, and
  with a forward to port 1 when it runs 3 seconds after it; the flooding and forwarding
  counters differ accordingly.
\<close>

theorem C8_clock_dependence_counterexample:
  "map fst [(ProcessFrame ''AA:AA:AA:AA:AA:AA'' ''BB:BB:BB:BB:BB:BB'' 1, 0::time_point),
            (CleanupTable, 6000000000),
            (ProcessFrame ''BB:BB:BB:BB:BB:BB'' ''AA:AA:AA:AA:AA:AA'' 2, 6000000000)]
   = map fst [(ProcessFrame ''AA:AA:AA:AA:AA:AA'' ''BB:BB:BB:BB:BB:BB'' 1, 0::time_point),
            (CleanupTable, 3000000000),
            (ProcessFrame ''BB:BB:BB:BB:BB:BB'' ''AA:AA:AA:AA:AA:AA'' 2, 3000000000)]
   \<and> fst (run [(ProcessFrame ''AA:AA:AA:AA:AA:AA'' ''BB:BB:BB:BB:BB:BB'' 1, 0),
            (CleanupTable, 6000000000),
            (ProcessFrame ''BB:BB:BB:BB:BB:BB'' ''AA:AA:AA:AA:AA:AA'' 2, 6000000000)]
           (newSwitch 4 5))
     = [Some (New, UnknownUnicastFlood 1 [2, 3, 4]), None,
        Some (New, UnknownUnicastFlood 2 [1, 3, 4])]
   \<and> fst (run [(ProcessFrame ''AA:AA:AA:AA:AA:AA'' ''BB:BB:BB:BB:BB:BB'' 1, 0),
            (CleanupTable, 3000000000),
            (ProcessFrame ''BB:BB:BB:BB:BB:BB'' ''AA:AA:AA:AA:AA:AA'' 2, 3000000000)]
           (newSwitch 4 5))
     = [Some (New, UnknownUnicastFlood 1 [2, 3, 4]), None, Some (New, Forwarding 1)]
   \<and> counters (snd (run [(ProcessFrame ''AA:AA:AA:AA:AA:AA'' ''BB:BB:BB:BB:BB:BB'' 1, 0),
            (CleanupTable, 6000000000),
            (ProcessFrame ''BB:BB:BB:BB:BB:BB'' ''AA:AA:AA:AA:AA:AA'' 2, 6000000000)]
           (newSwitch 4 5))) = (2, 2, 0, 2)
   \<and> counters (snd (run [(ProcessFrame ''AA:AA:AA:AA:AA:AA'' ''BB:BB:BB:BB:BB:BB'' 1, 0),
            (CleanupTable, 3000000000),
            (ProcessFrame ''BB:BB:BB:BB:BB:BB'' ''AA:AA:AA:AA:AA:AA'' 2, 3000000000)]
           (newSwitch 4 5))) = (2, 2, 1, 1)"
  by (simp add: counters_def cleanupTable_def elapsedSeconds_def ticksPerSecond_def
      processFrame_def learningPhase_def forwardingDecision_def newSwitch_def
      floodingPorts_def floodLoop.simps)

text \<open>
  C8 (amended): no operation takes the time from the caller; processFrame and
  cleanupTable read the steady clock internally, and the clock readings are an input of
  every run beside the calls. They reach only the stored timestamps and, through them,
  the aging sweep: when aging is disabled (timeout at most 0) or cleanupTable is not
  called, two runs of the same sequence of calls from the same state give the same
  learning outcomes and decisions, the same counters and the same port for every
  address, whatever the clock returned in either run.
\<close>

theorem C8_clock_reaches_only_aging:
  assumes "map fst t1 = map fst t2"
    and "agingTimeout s \<le> 0 \<or> CleanupTable \<notin> set (map fst t1)"
  shows "fst (run t1 s) = fst (run t2 s)
       \<and> counters (snd (run t1 s)) = counters (snd (run t2 s))
       \<and> portOf (snd (run t1 s)) = portOf (snd (run t2 s))
       \<and> isLearned (snd (run t1 s)) = isLearned (snd (run t2 s))"
proof -
  have r: "agreeUpToTime s s"
    by (simp add: agreeUpToTime_def)
  have a: "fst (run t1 s) = fst (run t2 s) \<and> agreeUpToTime (snd (run t1 s)) (snd (run t2 s))"
    by (rule run_agree [OF r assms])
  then have p: "portOf (snd (run t1 s)) = portOf (snd (run t2 s))"
    by (simp add: agreeUpToTime_def)
  have "isLearned (snd (run t1 s)) mac = isLearned (snd (run t2 s)) mac" for mac
  proof -
    have "(portOf (snd (run t1 s)) mac = None) = (portOf (snd (run t2 s)) mac = None)"
      by (simp add: p)
    then show ?thesis by (simp add: isLearned_def portOf_def)
  qed
  then have "isLearned (snd (run t1 s)) = isLearned (snd (run t2 s))"
    by (simp add: fun_eq_iff)
  with a p show ?thesis
    by (simp add: agreeUpToTime_def)
qed

theorem C8_clock_reaches_only_aging_witness:
  "map fst [(ProcessFrame ''AA:AA:AA:AA:AA:AA'' ''BB:BB:BB:BB:BB:BB'' 1, 0::time_point),
            (ProcessFrame ''BB:BB:BB:BB:BB:BB'' ''AA:AA:AA:AA:AA:AA'' 2, 6000000000)]
   = map fst [(ProcessFrame ''AA:AA:AA:AA:AA:AA'' ''BB:BB:BB:BB:BB:BB'' 1, 17::time_point),
            (ProcessFrame ''BB:BB:BB:BB:BB:BB'' ''AA:AA:AA:AA:AA:AA'' 2, 3000000000)]
   \<and> CleanupTable \<notin> set (map fst
           [(ProcessFrame ''AA:AA:AA:AA:AA:AA'' ''BB:BB:BB:BB:BB:BB'' 1, 0::time_point),
            (ProcessFrame ''BB:BB:BB:BB:BB:BB'' ''AA:AA:AA:AA:AA:AA'' 2, 6000000000)])
   \<and> fst (run [(ProcessFrame ''AA:AA:AA:AA:AA:AA'' ''BB:BB:BB:BB:BB:BB'' 1, 0),
            (ProcessFrame ''BB:BB:BB:BB:BB:BB'' ''AA:AA:AA:AA:AA:AA'' 2, 6000000000)]
           (newSwitch 4 5))
     = fst (run [(ProcessFrame ''AA:AA:AA:AA:AA:AA'' ''BB:BB:BB:BB:BB:BB'' 1, 17),
            (ProcessFrame ''BB:BB:BB:BB:BB:BB'' ''AA:AA:AA:AA:AA:AA'' 2, 3000000000)]
           (newSwitch 4 5))"
proof -
  let ?t1 = "[(ProcessFrame ''AA:AA:AA:AA:AA:AA'' ''BB:BB:BB:BB:BB:BB'' 1, 0::time_point),
            (ProcessFrame ''BB:BB:BB:BB:BB:BB'' ''AA:AA:AA:AA:AA:AA'' 2, 6000000000)]"
  let ?t2 = "[(ProcessFrame ''AA:AA:AA:AA:AA:AA'' ''BB:BB:BB:BB:BB:BB'' 1, 17::time_point),
            (ProcessFrame ''BB:BB:BB:BB:BB:BB'' ''AA:AA:AA:AA:AA:AA'' 2, 3000000000)]"
  have h1: "map fst ?t1 = map fst ?t2" by simp
  have h2: "CleanupTable \<notin> set (map fst ?t1)" by simp
  have h3: "agingTimeout (newSwitch 4 5) \<le> 0 \<or> CleanupTable \<notin> set (map fst ?t1)"
    using h2 by blast
  show ?thesis
    using h1 h2 C8_clock_reaches_only_aging [OF h1 h3] by blast
qed

end
